theory Spec2Isabelle
  imports Main "HOL-Library.Word" "HOL-Library.Signed_Division"
begin

section \<open>The CMAF ingester of livesim2 (cmd/livesim2/app/cmaf-ingester.go)\<close>

text \<open>
  Machine integers: Go's \<open>uint64\<close> is \<open>64 word\<close> read unsigned, Go's \<open>int\<close> and
  \<open>int64\<close> are \<open>64 word\<close> read with \<open>sint\<close> (a 64-bit platform), \<open>uint32\<close> is
  \<open>32 word\<close>. A byte slice is a list of \<open>8 word\<close>.
\<close>

type_synonym u64 = "64 word"
type_synonym i64 = "64 word"
type_synonym u32 = "32 word"
type_synonym bytes = "8 word list"

subsection \<open>Data\<close>

record CmafIngesterRequest =
  User :: string
  PassWord :: string
  Dest :: string
  URL :: string
  TestNowMS :: "i64 option"

datatype ingesterState =
  ingesterStateNotStarted | ingesterStateRunning | ingesterStateStopped

record cmafRepData =
  repID :: string
  contentType :: string
  mimeType :: string
  initPath :: string
  mediaPattern :: string

text \<open>
  Of \<open>ResponseConfig\<close> the ingester reads \<open>URLParts\<close>, \<open>SegTimelineFlag\<close> and
  \<open>getAvailabilityTimeOffsetS()\<close>; the last is a float64 that the code turns into
  milliseconds with \<open>int(x * 1000)\<close>, kept here as the resulting integer. The other
  fields are only read by the collaborators, which are parameters below.
\<close>

record ResponseConfig =
  URLParts :: "string list"
  SegTimelineFlag :: bool
  AvailabilityTimeOffsetMS :: i64

record asset =
  AssetPath :: string
  refRep :: string

record cmafIngester =
  user :: string
  passWord :: string
  dest :: string
  url :: string
  testNowMS :: "i64 option"
  cfg :: ResponseConfig
  ingAsset :: asset
  repsData :: "cmafRepData list"
  report :: "string list"

record cmafIngesterMgr =
  nr :: u64
  ingesters :: "u64 \<rightharpoonup> cmafIngester"
  state :: ingesterState

text \<open>The part of a DASH MPD that \<open>NewCmafIngester\<close> walks through.\<close>

record SegmentTemplateType =
  Initialization :: string
  Media :: string

record RepresentationType =
  RepId :: string
  SegmentTemplate :: "SegmentTemplateType option"

record AdaptationSetType =
  ContentType :: string
  Representations :: "RepresentationType list"

record PeriodType =
  AdaptationSets :: "AdaptationSetType list"

record MPD =
  Periods :: "PeriodType list"

subsection \<open>The ingester manager\<close>

text \<open>
  The collaborators of \<open>NewCmafIngester\<close> that live outside this file are parameters:
  \<open>httptest.NewRequest\<close> (which panics on a malformed URL, here \<open>False\<close>),
  \<open>cfgFromRequest\<close> (given the URL and the \<open>nowMS\<close> query), \<open>URLContentPart\<close>,
  \<open>assetMgr.findAsset\<close>, \<open>LiveMPD\<close>, \<open>orderAdaptationSetsByContentType\<close>,
  \<open>GetSegmentTemplate\<close> (\<open>None\<close> is a nil pointer) and \<open>replaceIdentifiers\<close>.
\<close>

record mgr_env =
  validRequestURL :: "string \<Rightarrow> bool"
  cfgFromRequest :: "string \<Rightarrow> i64 option \<Rightarrow> string + (i64 \<times> ResponseConfig)"
  URLContentPart :: "ResponseConfig \<Rightarrow> string"
  findAsset :: "string \<Rightarrow> asset option"
  LiveMPD :: "asset \<Rightarrow> string \<Rightarrow> ResponseConfig \<Rightarrow> i64 \<Rightarrow> string + MPD"
  orderAdaptationSetsByContentType :: "AdaptationSetType list \<Rightarrow> AdaptationSetType list"
  GetSegmentTemplate :: "RepresentationType \<Rightarrow> SegmentTemplateType option"
  replaceIdentifiers :: "RepresentationType \<Rightarrow> string \<Rightarrow> string"

datatype create_error =
  ErrNotRunning
  | ErrConfig string
  | ErrUnknownAsset string
  | ErrLiveMPD string
  | ErrUnknownContentType string
  | ErrPanic string

definition NewCmafIngesterMgr :: cmafIngesterMgr where
  "NewCmafIngesterMgr =
     \<lparr>nr = 0, ingesters = Map.empty, state = ingesterStateNotStarted\<rparr>"

definition Start :: "cmafIngesterMgr \<Rightarrow> cmafIngesterMgr" where
  "Start cm = cm\<lparr>state := ingesterStateRunning\<rparr>"

definition Load :: "cmafIngesterMgr \<Rightarrow> u64" where
  "Load cm = nr cm"

definition CompareAndSwap :: "cmafIngesterMgr \<Rightarrow> u64 \<Rightarrow> u64 \<Rightarrow> bool \<times> cmafIngesterMgr" where
  "CompareAndSwap cm old new =
     (if nr cm = old then (True, cm\<lparr>nr := new\<rparr>) else (False, cm))"

text \<open>
  The loop \<open>for { prev := cm.nr.Load(); nr = prev + 1; if cm.nr.CompareAndSwap(prev, nr)
  { break } }\<close>, run with no other writer between the load and the swap: the swap
  succeeds in the first round, which is what the termination proof shows.
\<close>

function uniqueNr :: "cmafIngesterMgr \<Rightarrow> u64 \<times> cmafIngesterMgr" where
  "uniqueNr cm =
     (let prev = Load cm; n = prev + 1 in
      if fst (CompareAndSwap cm prev n) then (n, snd (CompareAndSwap cm prev n))
      else uniqueNr (snd (CompareAndSwap cm prev n)))"
  by pat_completeness auto
termination
  by (relation "{}") (simp_all add: Load_def CompareAndSwap_def)

declare uniqueNr.simps [simp del]

definition mimeTypeOf :: "string \<Rightarrow> string option" where
  "mimeTypeOf ct =
     (if ct = ''video'' then Some ''video/mp4''
      else if ct = ''audio'' then Some ''audio/mp4''
      else if ct = ''text'' then Some ''application/mp4''
      else None)"

fun repsOfSet ::
  "mgr_env \<Rightarrow> string \<Rightarrow> string \<Rightarrow> RepresentationType list \<Rightarrow> create_error + cmafRepData list"
where
  "repsOfSet env ct mt [] = Inr []"
| "repsOfSet env ct mt (r # rs) =
     (case GetSegmentTemplate env r of
        None \<Rightarrow> Inl (ErrPanic ''nil pointer dereference'')
      | Some segTmpl \<Rightarrow>
          (case repsOfSet env ct mt rs of
             Inl e \<Rightarrow> Inl e
           | Inr rds \<Rightarrow>
               Inr (\<lparr>repID = RepId r, contentType = ct, mimeType = mt,
                      initPath = replaceIdentifiers env r (Initialization segTmpl),
                      mediaPattern = replaceIdentifiers env r (Media segTmpl)\<rparr> # rds)))"

fun repsOfSets :: "mgr_env \<Rightarrow> AdaptationSetType list \<Rightarrow> create_error + cmafRepData list" where
  "repsOfSets env [] = Inr []"
| "repsOfSets env (a # as) =
     (case mimeTypeOf (ContentType a) of
        None \<Rightarrow> Inl (ErrUnknownContentType (ContentType a))
      | Some mt \<Rightarrow>
          (case repsOfSet env (ContentType a) mt (Representations a) of
             Inl e \<Rightarrow> Inl e
           | Inr rds \<Rightarrow>
               (case repsOfSets env as of
                  Inl e \<Rightarrow> Inl e
                | Inr rest \<Rightarrow> Inr (rds @ rest))))"

text \<open>\<open>path.Split\<close>: the file part is what follows the last slash.\<close>

definition path_Split :: "string \<Rightarrow> string \<times> string" where
  "path_Split p =
     (let file = rev (takeWhile (\<lambda>c. c \<noteq> CHR ''/'') (rev p)) in
      (take (length p - length file) p, file))"

definition NewCmafIngester ::
  "mgr_env \<Rightarrow> cmafIngesterMgr \<Rightarrow> CmafIngesterRequest \<Rightarrow> cmafIngesterMgr \<times> (create_error + u64)"
where
  "NewCmafIngester env cm req =
     (if state cm \<noteq> ingesterStateRunning then (cm, Inl ErrNotRunning)
      else
        let (n, cm1) = uniqueNr cm in
        if \<not> validRequestURL env (URL req) then (cm1, Inl (ErrPanic ''invalid NewRequest arguments''))
        else
          case cfgFromRequest env (URL req) (TestNowMS req) of
            Inl errHT \<Rightarrow> (cm1, Inl (ErrConfig errHT))
          | Inr (nowMS, cf) \<Rightarrow>
              let contentPart = URLContentPart env cf in
              case findAsset env contentPart of
                None \<Rightarrow> (cm1, Inl (ErrUnknownAsset contentPart))
              | Some a \<Rightarrow>
                  let mpdName = snd (path_Split contentPart) in
                  case LiveMPD env a mpdName cf nowMS of
                    Inl err \<Rightarrow> (cm1, Inl (ErrLiveMPD err))
                  | Inr liveMPD \<Rightarrow>
                      (case Periods liveMPD of
                         [] \<Rightarrow> (cm1, Inl (ErrPanic ''index out of range''))
                       | period # _ \<Rightarrow>
                           (case repsOfSets env
                                   (orderAdaptationSetsByContentType env (AdaptationSets period)) of
                              Inl e \<Rightarrow> (cm1, Inl e)
                            | Inr rds \<Rightarrow>
                                let c = \<lparr>user = User req, passWord = PassWord req,
                                         dest = Dest req, url = URL req,
                                         testNowMS = TestNowMS req, cfg = cf, ingAsset = a,
                                         repsData = rds, report = []\<rparr>
                                in (cm1\<lparr>ingesters := (ingesters cm1)(n \<mapsto> c)\<rparr>, Inr n))))"

text \<open>A run of calls, one after the other, on the same manager.\<close>

fun creates ::
  "mgr_env \<Rightarrow> cmafIngesterMgr \<Rightarrow> CmafIngesterRequest list \<Rightarrow>
   cmafIngesterMgr \<times> (create_error + u64) list"
where
  "creates env cm [] = (cm, [])"
| "creates env cm (req # reqs) =
     (let (cm1, r) = NewCmafIngester env cm req;
          (cm2, rs) = creates env cm1 reqs
      in (cm2, r # rs))"

fun okIds :: "(create_error + u64) list \<Rightarrow> u64 list" where
  "okIds [] = []"
| "okIds (Inl e # rs) = okIds rs"
| "okIds (Inr n # rs) = n # okIds rs"

subsection \<open>The source between the segment writer and the HTTP client\<close>

text \<open>
  \<open>cmafSource\<close> is written to by \<open>writeSegment\<close> (it is its \<open>http.ResponseWriter\<close>) and
  read by the HTTP client as the body of the PUT request. The channels and the context
  it holds are the environment of \<open>Read\<close> and appear below as what \<open>Read\<close> observes.
\<close>

record cmafSource =
  srcURL :: string
  srcHeader :: "(string \<times> string list) list"
  srcStatus :: i64
  buf :: bytes

definition newCmafSource :: "string \<Rightarrow> cmafSource" where
  "newCmafSource u = \<lparr>srcURL = u, srcHeader = [], srcStatus = 0, buf = []\<rparr>"

definition Header :: "cmafSource \<Rightarrow> (string \<times> string list) list" where
  "Header c = srcHeader c"

definition Flush :: "cmafSource \<Rightarrow> cmafSource" where
  "Flush c = c"

text \<open>\<open>Write\<close> appends under the lock and reports the whole slice as written, with no error.\<close>

definition Write :: "bytes \<Rightarrow> cmafSource \<Rightarrow> nat \<times> cmafSource" where
  "Write b c = (length b, c\<lparr>buf := buf c @ b\<rparr>)"

definition WriteHeader :: "i64 \<Rightarrow> cmafSource \<Rightarrow> cmafSource" where
  "WriteHeader st c = c\<lparr>srcStatus := st\<rparr>"

text \<open>
  One round of the loop of \<open>Read\<close> takes the lock, looks at the buffer, and if it is
  empty polls the two channels without blocking. What the rest of the program did by
  then is the observation of that round: the bytes that calls of \<open>Write\<close> appended since
  the round before, whether \<open>ctx.Done()\<close> is ready, and whether a receive from
  \<open>noMoreCh\<close> is ready (a sender is waiting, or the channel is closed).
\<close>

record poll =
  written :: bytes
  ctxDone :: bool
  noMore :: bool

datatype io_error = EOF

text \<open>
  \<open>Read c p polls\<close> returns the source, the slice \<open>p\<close> after \<open>copy(p, c.buf)\<close> and
  the pair \<open>(n, err)\<close>. Each round that finds nothing sleeps 250 ms and goes on with the
  next observation; when the observations run out the call has not returned (\<open>None\<close>):
  it is still polling.
\<close>

fun Read ::
  "cmafSource \<Rightarrow> bytes \<Rightarrow> poll list \<Rightarrow> cmafSource \<times> bytes \<times> (nat \<times> io_error option) option"
where
  "Read c p [] = (c, p, None)"
| "Read c p (e # es) =
     (let c1 = c\<lparr>buf := buf c @ written e\<rparr> in
      if length (buf c1) > 0 then
        (let n = min (length p) (length (buf c1)) in
         (c1\<lparr>buf := (if n < length (buf c1) then drop n (buf c1) else [])\<rparr>,
          take n (buf c1) @ drop n p,
          Some (n, None)))
      else if ctxDone e \<or> noMore e then (c1, p, Some (0, Some EOF))
      else Read c1 p es)"

text \<open>A round in which nothing was written and no channel is ready.\<close>

definition quiet :: "poll \<Rightarrow> bool" where
  "quiet e = (written e = [] \<and> \<not> ctxDone e \<and> \<not> noMore e)"

section \<open>Concrete inputs\<close>

subsection \<open>For the ingester manager\<close>

text \<open>A two-track asset, its manifest, and collaborators that resolve it.\<close>

definition cfg0 :: ResponseConfig where
  "cfg0 = \<lparr>URLParts = ['''', ''livesim2'', ''testpic_2s'', ''Manifest.mpd''],
           SegTimelineFlag = False, AvailabilityTimeOffsetMS = 0\<rparr>"

definition asset0 :: asset where
  "asset0 = \<lparr>AssetPath = ''testpic_2s'', refRep = ''V300''\<rparr>"

definition mpd0 :: MPD where
  "mpd0 = \<lparr>Periods = [\<lparr>AdaptationSets =
     [\<lparr>ContentType = ''video'', Representations =
         [\<lparr>RepId = ''V300'', SegmentTemplate =
             Some \<lparr>Initialization = ''V300/init.mp4'', Media = ''V300/$Number$.m4s''\<rparr>\<rparr>]\<rparr>,
      \<lparr>ContentType = ''audio'', Representations =
         [\<lparr>RepId = ''A48'', SegmentTemplate =
             Some \<lparr>Initialization = ''A48/init.mp4'', Media = ''A48/$Number$.m4s''\<rparr>\<rparr>]\<rparr>]\<rparr>]\<rparr>"

definition env0 :: mgr_env where
  "env0 = \<lparr>validRequestURL = (\<lambda>u. u \<noteq> []),
            cfgFromRequest = (\<lambda>u t. Inr (case t of None \<Rightarrow> 0 | Some n \<Rightarrow> n, cfg0)),
            URLContentPart = (\<lambda>c. ''testpic_2s/Manifest.mpd''),
            findAsset = (\<lambda>p. Some asset0),
            LiveMPD = (\<lambda>a n c t. Inr mpd0),
            orderAdaptationSetsByContentType = (\<lambda>as. as),
            GetSegmentTemplate = SegmentTemplate,
            replaceIdentifiers = (\<lambda>r s. s)\<rparr>"

text \<open>The same collaborators, with an asset manager that does not know the asset.\<close>

definition env1 :: mgr_env where
  "env1 = env0\<lparr>findAsset := (\<lambda>p. None)\<rparr>"

definition req0 :: CmafIngesterRequest where
  "req0 = \<lparr>User = '''', PassWord = '''', Dest = ''http://localhost:8080/upload'',
            URL = ''/livesim2/testpic_2s/Manifest.mpd'', TestNowMS = Some 1000\<rparr>"

text \<open>A running manager whose counter is two below the largest \<open>uint64\<close>.\<close>

definition cmHigh :: cmafIngesterMgr where
  "cmHigh = \<lparr>nr = 0xFFFFFFFFFFFFFFFE, ingesters = Map.empty, state = ingesterStateRunning\<rparr>"

text \<open>The session that \<open>env0\<close> and \<open>req0\<close> give.\<close>

definition ing0 :: cmafIngester where
  "ing0 = \<lparr>user = '''', passWord = '''', dest = ''http://localhost:8080/upload'',
            url = ''/livesim2/testpic_2s/Manifest.mpd'', testNowMS = Some 1000,
            cfg = cfg0, ingAsset = asset0,
            repsData =
              [\<lparr>repID = ''V300'', contentType = ''video'', mimeType = ''video/mp4'',
                initPath = ''V300/init.mp4'', mediaPattern = ''V300/$Number$.m4s''\<rparr>,
               \<lparr>repID = ''A48'', contentType = ''audio'', mimeType = ''audio/mp4'',
                initPath = ''A48/init.mp4'', mediaPattern = ''A48/$Number$.m4s''\<rparr>],
            report = []\<rparr>"

subsection \<open>For the source\<close>

text \<open>A source that holds five bytes, and the observations of rounds of \<open>Read\<close>.\<close>

definition src5 :: cmafSource where
  "src5 = (newCmafSource ''http://localhost:8080/upload/testpic_2s/V300/1.m4s'')\<lparr>buf := [1, 2, 3, 4, 5]\<rparr>"

definition nothing :: poll where
  "nothing = \<lparr>written = [], ctxDone = False, noMore = False\<rparr>"

definition closed :: poll where
  "closed = \<lparr>written = [], ctxDone = False, noMore = True\<rparr>"

section \<open>Properties\<close>

subsection \<open>The ingester manager\<close>

lemma uniqueNr_eq: "uniqueNr cm = (nr cm + 1, cm\<lparr>nr := nr cm + 1\<rparr>)"
  by (simp add: uniqueNr.simps Load_def CompareAndSwap_def Let_def)

lemma NewCmafIngester_Inr:
  "NewCmafIngester env cm req = (cm', Inr n) \<Longrightarrow>
     state cm = ingesterStateRunning \<and> n = nr cm + 1 \<and> nr cm' = n \<and>
     state cm' = ingesterStateRunning \<and>
     (\<exists>c. ingesters cm' = (ingesters cm)(n \<mapsto> c))"
  by (auto simp add: NewCmafIngester_def uniqueNr_eq Let_def
      split: sum.splits option.splits list.splits prod.splits if_splits)

lemma repsOfSet_error: "repsOfSet env ct mt rs = Inl e \<Longrightarrow> e \<noteq> ErrNotRunning"
  by (induction rs arbitrary: e) (auto split: option.splits sum.splits)

lemma repsOfSets_error: "repsOfSets env as = Inl e \<Longrightarrow> e \<noteq> ErrNotRunning"
  by (induction as arbitrary: e) (auto split: option.splits sum.splits dest: repsOfSet_error)

lemma NewCmafIngester_Inl:
  "NewCmafIngester env cm req = (cm', Inl e) \<Longrightarrow> state cm = ingesterStateRunning \<Longrightarrow>
     cm' = cm\<lparr>nr := nr cm + 1\<rparr> \<and> e \<noteq> ErrNotRunning"
  by (auto simp add: NewCmafIngester_def uniqueNr_eq Let_def
      split: sum.splits option.splits list.splits prod.splits if_splits dest: repsOfSets_error)

lemma NewCmafIngester_nr_cases:
  "nr (fst (NewCmafIngester env cm req)) = nr cm \<and> (\<exists>e. snd (NewCmafIngester env cm req) = Inl e)
   \<or> nr (fst (NewCmafIngester env cm req)) = nr cm + 1"
  by (auto simp add: NewCmafIngester_def uniqueNr_eq Let_def
      split: sum.splits option.splits list.splits prod.splits if_splits)

lemma u64_succ_unat: "unat (x::u64) + 1 < 2 ^ 64 \<Longrightarrow> unat (x + 1) = unat x + 1"
  by (simp add: unat_word_ariths)

lemma env0_create:
  "state cm = ingesterStateRunning \<Longrightarrow>
   NewCmafIngester env0 cm req0 =
     (cm\<lparr>nr := nr cm + 1, ingesters := (ingesters cm)(nr cm + 1 \<mapsto> ing0)\<rparr>, Inr (nr cm + 1))"
  by (simp add: NewCmafIngester_def uniqueNr_eq env0_def req0_def mpd0_def mimeTypeOf_def ing0_def)

lemma env1_create:
  "state cm = ingesterStateRunning \<Longrightarrow>
   NewCmafIngester env1 cm req0 =
     (cm\<lparr>nr := nr cm + 1\<rparr>, Inl (ErrUnknownAsset ''testpic_2s/Manifest.mpd''))"
  by (simp add: NewCmafIngester_def uniqueNr_eq env1_def env0_def req0_def)

text \<open>
  C6, as the code has it. The ids of the successful calls of a run of calls are
  strictly increasing, hence pairwise distinct, and all above the counter the run
  started from, as long as the 64-bit counter does not wrap during the run: the counter
  is a \<open>uint64\<close> and \<open>prev + 1\<close> is taken modulo \<open>2 ^ 64\<close>. No operation of the
  manager removes a session or lowers the counter, so sessions that have stopped do not
  change this.
\<close>

theorem create_ids_strictly_increase:
  assumes "unat (nr cm) + length reqs < 2 ^ 64"
  shows "sorted_wrt (<) (okIds (snd (creates env cm reqs))) \<and>
         distinct (okIds (snd (creates env cm reqs))) \<and>
         (\<forall>n \<in> set (okIds (snd (creates env cm reqs))). nr cm < n)"
proof -
  have "unat (nr cm) + length reqs < 2 ^ 64 \<Longrightarrow>
        sorted_wrt (<) (okIds (snd (creates env cm reqs))) \<and>
        (\<forall>n \<in> set (okIds (snd (creates env cm reqs))). nr cm < n)"
  proof (induction reqs arbitrary: cm)
    case Nil
    then show ?case by simp
  next
    case (Cons req reqs)
    obtain cm1 r where step: "NewCmafIngester env cm req = (cm1, r)"
      by (cases "NewCmafIngester env cm req")
    obtain cm2 rs where rest: "creates env cm1 reqs = (cm2, rs)"
      by (cases "creates env cm1 reqs")
    have res: "snd (creates env cm (req # reqs)) = r # rs"
      using step rest by simp
    from NewCmafIngester_nr_cases [of env cm req] step
    have nr1: "nr cm1 = nr cm \<and> (\<exists>e. r = Inl e) \<or> nr cm1 = nr cm + 1" by simp
    have bound: "unat (nr cm) + 1 < 2 ^ 64" using Cons.prems by simp
    have le: "nr cm \<le> nr cm1"
      using nr1 u64_succ_unat [OF bound] by (auto simp: word_le_nat_alt)
    have "unat (nr cm1) + length reqs < 2 ^ 64"
      using nr1 u64_succ_unat [OF bound] Cons.prems by auto
    from Cons.IH [OF this] rest
    have ih: "sorted_wrt (<) (okIds rs)" "\<forall>n \<in> set (okIds rs). nr cm1 < n" by simp_all
    show ?case
    proof (cases r)
      case (Inl e)
      then show ?thesis using res ih le by auto
    next
      case (Inr n)
      with step NewCmafIngester_Inr [of env cm req cm1 n]
      have n: "n = nr cm + 1" "nr cm1 = n" by simp_all
      have "nr cm < n" using n u64_succ_unat [OF bound] by (simp add: word_less_nat_alt)
      then show ?thesis using res ih Inr n by auto
    qed
  qed
  from this [OF assms] show ?thesis
    by (simp add: strict_sorted_iff)
qed

lemma creates_three:
  "creates env0 (Start NewCmafIngesterMgr) [req0, req0, req0] =
     (\<lparr>nr = 3, ingesters = [1 \<mapsto> ing0, 2 \<mapsto> ing0, 3 \<mapsto> ing0], state = ingesterStateRunning\<rparr>,
      [Inr 1, Inr 2, Inr 3])"
  by (simp add: env0_create Start_def NewCmafIngesterMgr_def)

theorem create_ids_strictly_increase_witness:
  "unat (nr (Start NewCmafIngesterMgr)) + length [req0, req0, req0] < 2 ^ 64 \<and>
   okIds (snd (creates env0 (Start NewCmafIngesterMgr) [req0, req0, req0])) = [1, 2, 3] \<and>
   sorted_wrt (<) (okIds (snd (creates env0 (Start NewCmafIngesterMgr) [req0, req0, req0]))) \<and>
   distinct (okIds (snd (creates env0 (Start NewCmafIngesterMgr) [req0, req0, req0])))"
proof -
  have h: "unat (nr (Start NewCmafIngesterMgr)) + length [req0, req0, req0] < 2 ^ 64"
    by (simp add: Start_def NewCmafIngesterMgr_def)
  have ids: "okIds (snd (creates env0 (Start NewCmafIngesterMgr) [req0, req0, req0])) = [1, 2, 3]"
    unfolding creates_three by simp
  from create_ids_strictly_increase [OF h, of env0] h ids show ?thesis by blast
qed

text \<open>
  C6, as the claim states it, fails where the counter wraps: on a running manager whose
  counter is \<open>2 ^ 64 - 2\<close>, two successful calls return \<open>2 ^ 64 - 1\<close> and then \<open>0\<close>.
\<close>

theorem create_ids_wrap_counterexample:
  "state cmHigh = ingesterStateRunning \<and>
   snd (creates env0 cmHigh [req0, req0]) = [Inr 0xFFFFFFFFFFFFFFFF, Inr 0] \<and>
   \<not> sorted_wrt (<) (okIds (snd (creates env0 cmHigh [req0, req0])))"
proof -
  have res: "snd (creates env0 cmHigh [req0, req0]) = [Inr 0xFFFFFFFFFFFFFFFF, Inr 0]"
    by (simp add: env0_create cmHigh_def)
  show ?thesis unfolding res by (simp add: cmHigh_def)
qed

text \<open>
  C7. While the manager is not running (not started, or stopped), a call fails with the
  not-running error and returns the manager as it was: the counter and the table of
  sessions are untouched.
\<close>

theorem create_not_running:
  assumes "state cm \<noteq> ingesterStateRunning"
  shows "NewCmafIngester env cm req = (cm, Inl ErrNotRunning)"
  using assms by (simp add: NewCmafIngester_def)

theorem create_not_running_witness:
  "state NewCmafIngesterMgr \<noteq> ingesterStateRunning \<and>
   NewCmafIngester env0 NewCmafIngesterMgr req0 = (NewCmafIngesterMgr, Inl ErrNotRunning) \<and>
   nr NewCmafIngesterMgr = 0 \<and> dom (ingesters NewCmafIngesterMgr) = {}"
proof -
  have h: "state NewCmafIngesterMgr \<noteq> ingesterStateRunning"
    by (simp add: NewCmafIngesterMgr_def)
  from create_not_running [OF h, of env0 req0] h show ?thesis
    by (simp add: NewCmafIngesterMgr_def)
qed

lemma NewCmafIngester_Inl_ingesters:
  "NewCmafIngester env cm req = (cm', Inl e) \<Longrightarrow> ingesters cm' = ingesters cm \<and> state cm' = state cm"
  by (auto simp add: NewCmafIngester_def uniqueNr_eq Let_def
      split: sum.splits option.splits list.splits prod.splits if_splits)

lemma NewCmafIngester_state:
  "state (fst (NewCmafIngester env cm req)) = state cm"
  by (auto simp add: NewCmafIngester_def uniqueNr_eq Let_def
      split: sum.splits option.splits list.splits prod.splits if_splits)

lemma creates_state: "state (fst (creates env cm reqs)) = state cm"
proof (induction reqs arbitrary: cm)
  case Nil
  then show ?case by simp
next
  case (Cons req reqs)
  obtain cm1 r where step: "NewCmafIngester env cm req = (cm1, r)"
    by (cases "NewCmafIngester env cm req")
  have "state cm1 = state cm" using NewCmafIngester_state [of env cm req] step by simp
  with Cons.IH [of cm1] step show ?case by (simp add: split_beta)
qed

lemma creates_dom:
  "dom (ingesters (fst (creates env cm reqs))) =
     dom (ingesters cm) \<union> set (okIds (snd (creates env cm reqs)))"
proof (induction reqs arbitrary: cm)
  case Nil
  then show ?case by simp
next
  case (Cons req reqs)
  obtain cm1 r where step: "NewCmafIngester env cm req = (cm1, r)"
    by (cases "NewCmafIngester env cm req")
  obtain cm2 rs where rest: "creates env cm1 reqs = (cm2, rs)"
    by (cases "creates env cm1 reqs")
  from Cons.IH [of cm1] rest
  have ih: "dom (ingesters cm2) = dom (ingesters cm1) \<union> set (okIds rs)" by simp
  show ?case
  proof (cases r)
    case (Inl e)
    with step NewCmafIngester_Inl_ingesters [of env cm req cm1 e]
    have "ingesters cm1 = ingesters cm" by simp
    then show ?thesis using step rest ih Inl by simp
  next
    case (Inr n)
    with step NewCmafIngester_Inr [of env cm req cm1 n]
    obtain c where "ingesters cm1 = (ingesters cm)(n \<mapsto> c)" by auto
    then show ?thesis using step rest ih Inr by auto
  qed
qed

lemma creates_bounds:
  "unat (nr cm) + length reqs < 2 ^ 64 \<Longrightarrow>
     unat (nr cm) \<le> unat (nr (fst (creates env cm reqs))) \<and>
     unat (nr (fst (creates env cm reqs))) \<le> unat (nr cm) + length reqs \<and>
     (\<forall>n \<in> set (okIds (snd (creates env cm reqs))).
        unat (nr cm) < unat n \<and> unat n \<le> unat (nr (fst (creates env cm reqs))))"
proof (induction reqs arbitrary: cm)
  case Nil
  then show ?case by simp
next
  case (Cons req reqs)
  obtain cm1 r where step: "NewCmafIngester env cm req = (cm1, r)"
    by (cases "NewCmafIngester env cm req")
  obtain cm2 rs where rest: "creates env cm1 reqs = (cm2, rs)"
    by (cases "creates env cm1 reqs")
  have res: "creates env cm (req # reqs) = (cm2, r # rs)"
    using step rest by simp
  from NewCmafIngester_nr_cases [of env cm req] step
  have nr1: "nr cm1 = nr cm \<and> (\<exists>e. r = Inl e) \<or> nr cm1 = nr cm + 1" by simp
  have bound: "unat (nr cm) + 1 < 2 ^ 64" using Cons.prems by simp
  have le: "unat (nr cm) \<le> unat (nr cm1)" "unat (nr cm1) \<le> unat (nr cm) + 1"
    using nr1 u64_succ_unat [OF bound] by auto
  have "unat (nr cm1) + length reqs < 2 ^ 64"
    using le Cons.prems by simp
  from Cons.IH [OF this] rest
  have ih: "unat (nr cm1) \<le> unat (nr cm2)" "unat (nr cm2) \<le> unat (nr cm1) + length reqs"
    "\<forall>n \<in> set (okIds rs). unat (nr cm1) < unat n \<and> unat n \<le> unat (nr cm2)" by simp_all
  show ?case
  proof (cases r)
    case (Inl e)
    then show ?thesis unfolding res using ih le by auto
  next
    case (Inr n)
    with step NewCmafIngester_Inr [of env cm req cm1 n]
    have n: "n = nr cm + 1" "nr cm1 = n" by simp_all
    have "unat n = unat (nr cm) + 1" using n u64_succ_unat [OF bound] by simp
    then show ?thesis unfolding res using ih le Inr n by auto
  qed
qed


lemma creates_fail_replicate:
  "state cm = ingesterStateRunning \<Longrightarrow>
   creates env1 cm (replicate k req0) =
     (cm\<lparr>nr := nr cm + of_nat k\<rparr>,
      replicate k (Inl (ErrUnknownAsset ''testpic_2s/Manifest.mpd'')))"
proof (induction k arbitrary: cm)
  case 0
  then show ?case by simp
next
  case (Suc k)
  have "state (cm\<lparr>nr := nr cm + 1\<rparr>) = ingesterStateRunning" using Suc.prems by simp
  from Suc.IH [OF this] env1_create [OF Suc.prems] show ?case
    by (simp add: add.assoc)
qed

text \<open>
  C10, as the code has it. Take any run of calls on a manager that was started, then a
  call that fails on the manager the run left, then any further run of calls, the whole
  being short enough for the 64-bit counter not to wrap. The failing call has failed after
  the id was taken (configuration, unknown asset, manifest, content type, or a panic of a
  collaborator): the counter is one higher and the table of sessions is the same. The id
  it took is bound to no session, neither when the call returns nor after the further
  run: the table then holds exactly the ids that the successful calls of the two runs
  returned, those of the first run are below the id taken and those of the second above
  it, so the ids of the registered sessions have a gap there.
\<close>

theorem create_failure_consumes_id:
  assumes pre: "creates env (Start NewCmafIngesterMgr) pre = (cm, rs)"
    and fail: "NewCmafIngester env' cm req = (cm1, Inl e)"
    and post: "creates env'' cm1 post = (cm2, rs')"
    and nowrap: "length pre + 1 + length post < 2 ^ 64"
  shows "e \<noteq> ErrNotRunning \<and> nr cm1 = nr cm + 1 \<and> ingesters cm1 = ingesters cm \<and>
         nr cm1 \<notin> dom (ingesters cm1) \<and> nr cm1 \<notin> dom (ingesters cm2) \<and>
         dom (ingesters cm2) = set (okIds rs) \<union> set (okIds rs') \<and>
         (\<forall>n \<in> set (okIds rs). n < nr cm1) \<and> (\<forall>n \<in> set (okIds rs'). nr cm1 < n)"
proof -
  let ?cm0 = "Start NewCmafIngesterMgr"
  have nr0: "unat (nr ?cm0) = 0" and dom0: "dom (ingesters ?cm0) = {}"
    and st0: "state ?cm0 = ingesterStateRunning"
    by (simp_all add: Start_def NewCmafIngesterMgr_def)
  have running: "state cm = ingesterStateRunning"
    using creates_state [of env ?cm0 pre] pre st0 by simp
  from NewCmafIngester_Inl [OF fail running]
  have cm1: "cm1 = cm\<lparr>nr := nr cm + 1\<rparr>" and e: "e \<noteq> ErrNotRunning" by simp_all
  have "unat (nr ?cm0) + length pre < 2 ^ 64" using nowrap nr0 by simp
  from creates_bounds [OF this, of env] pre nr0
  have b_pre: "unat (nr cm) \<le> length pre" "\<forall>n \<in> set (okIds rs). unat n \<le> unat (nr cm)"
    by simp_all
  have "unat (nr cm) + 1 < 2 ^ 64" using b_pre nowrap by simp
  from u64_succ_unat [OF this] cm1
  have u1: "unat (nr cm1) = unat (nr cm) + 1" by simp
  have "unat (nr cm1) + length post < 2 ^ 64" using u1 b_pre nowrap by simp
  from creates_bounds [OF this, of env''] post
  have b_post: "\<forall>n \<in> set (okIds rs'). unat (nr cm1) < unat n" by simp
  have before: "\<forall>n \<in> set (okIds rs). n < nr cm1"
    using b_pre u1 by (auto simp: word_less_nat_alt)
  have after: "\<forall>n \<in> set (okIds rs'). nr cm1 < n"
    using b_post by (simp add: word_less_nat_alt)
  have d: "dom (ingesters cm) = set (okIds rs)"
    using creates_dom [of env ?cm0 pre] pre dom0 by simp
  have d1: "dom (ingesters cm1) = set (okIds rs)" using d cm1 by simp
  have d2: "dom (ingesters cm2) = set (okIds rs) \<union> set (okIds rs')"
    using creates_dom [of env'' cm1 post] post d1 by simp
  have n1: "nr cm1 \<notin> dom (ingesters cm1)" using d1 before by auto
  have n2: "nr cm1 \<notin> dom (ingesters cm2)" using d2 before after by auto
  have "nr cm1 = nr cm + 1" "ingesters cm1 = ingesters cm" using cm1 by simp_all
  with e n1 n2 d2 before after show ?thesis by blast
qed

lemma creates_one_ok:
  "creates env0 (Start NewCmafIngesterMgr) [req0] =
     (\<lparr>nr = 1, ingesters = [1 \<mapsto> ing0], state = ingesterStateRunning\<rparr>, [Inr 1])"
  by (simp add: env0_create Start_def NewCmafIngesterMgr_def)

theorem create_failure_consumes_id_witness:
  "creates env0 (Start NewCmafIngesterMgr) [req0] =
     (\<lparr>nr = 1, ingesters = [1 \<mapsto> ing0], state = ingesterStateRunning\<rparr>, [Inr 1]) \<and>
   NewCmafIngester env1 \<lparr>nr = 1, ingesters = [1 \<mapsto> ing0], state = ingesterStateRunning\<rparr> req0 =
     (\<lparr>nr = 2, ingesters = [1 \<mapsto> ing0], state = ingesterStateRunning\<rparr>,
      Inl (ErrUnknownAsset ''testpic_2s/Manifest.mpd'')) \<and>
   creates env0 \<lparr>nr = 2, ingesters = [1 \<mapsto> ing0], state = ingesterStateRunning\<rparr> [req0, req0] =
     (\<lparr>nr = 4, ingesters = [1 \<mapsto> ing0, 3 \<mapsto> ing0, 4 \<mapsto> ing0], state = ingesterStateRunning\<rparr>,
      [Inr 3, Inr 4]) \<and>
   length [req0] + 1 + length [req0, req0] < (2::nat) ^ 64 \<and>
   (2::u64) \<notin> dom [1 \<mapsto> ing0, 3 \<mapsto> ing0, 4 \<mapsto> ing0] \<and>
   dom [1 \<mapsto> ing0, 3 \<mapsto> ing0, 4 \<mapsto> ing0] = {1, 3, 4 :: u64}"
proof -
  let ?cm = "\<lparr>nr = 1, ingesters = [1 \<mapsto> ing0], state = ingesterStateRunning\<rparr>"
  let ?cm1 = "\<lparr>nr = 2, ingesters = [1 \<mapsto> ing0], state = ingesterStateRunning\<rparr>"
  let ?cm2 = "\<lparr>nr = 4, ingesters = [1 \<mapsto> ing0, 3 \<mapsto> ing0, 4 \<mapsto> ing0],
               state = ingesterStateRunning\<rparr>"
  have h1: "creates env0 (Start NewCmafIngesterMgr) [req0] = (?cm, [Inr 1])"
    by (rule creates_one_ok)
  have h2: "NewCmafIngester env1 ?cm req0 =
              (?cm1, Inl (ErrUnknownAsset ''testpic_2s/Manifest.mpd''))"
    by (simp add: env1_create)
  have h3: "creates env0 ?cm1 [req0, req0] = (?cm2, [Inr 3, Inr 4])"
    by (simp add: env0_create)
  have h4: "length [req0] + 1 + length [req0, req0] < (2::nat) ^ 64" by simp
  from create_failure_consumes_id [OF h1 h2 h3 h4]
  have "nr ?cm1 \<notin> dom (ingesters ?cm2)"
    and "dom (ingesters ?cm2) = set (okIds [Inr 1]) \<union> set (okIds [Inr 3, Inr 4])"
    by blast+
  then have "(2::u64) \<notin> dom [1 \<mapsto> ing0, 3 \<mapsto> ing0, 4 \<mapsto> ing0]"
    and "dom [1 \<mapsto> ing0, 3 \<mapsto> ing0, 4 \<mapsto> ing0] = {1, 3, 4 :: u64}"
    by (simp_all add: insert_commute)
  with h1 h2 h3 h4 show ?thesis by blast
qed

text \<open>
  C10, as the claim states it, fails where the counter wraps. On a manager just started,
  a call that fails takes id \<open>1\<close>; after \<open>2 ^ 64 - 1\<close> more failing calls the counter is
  \<open>0\<close> again, and the next successful call returns \<open>1\<close> and binds it to its session.
\<close>

theorem create_failure_id_wrap_counterexample:
  "NewCmafIngester env1 (Start NewCmafIngesterMgr) req0 =
     (\<lparr>nr = 1, ingesters = Map.empty, state = ingesterStateRunning\<rparr>,
      Inl (ErrUnknownAsset ''testpic_2s/Manifest.mpd'')) \<and>
   fst (creates env1 \<lparr>nr = 1, ingesters = Map.empty, state = ingesterStateRunning\<rparr>
          (replicate (2 ^ 64 - 1) req0)) =
     \<lparr>nr = 0, ingesters = Map.empty, state = ingesterStateRunning\<rparr> \<and>
   NewCmafIngester env0 \<lparr>nr = 0, ingesters = Map.empty, state = ingesterStateRunning\<rparr> req0 =
     (\<lparr>nr = 1, ingesters = [1 \<mapsto> ing0], state = ingesterStateRunning\<rparr>, Inr 1) \<and>
   ingesters (fst (NewCmafIngester env0
       \<lparr>nr = 0, ingesters = Map.empty, state = ingesterStateRunning\<rparr> req0)) 1 = Some ing0"
proof -
  have a: "NewCmafIngester env1 (Start NewCmafIngesterMgr) req0 =
     (\<lparr>nr = 1, ingesters = Map.empty, state = ingesterStateRunning\<rparr>,
      Inl (ErrUnknownAsset ''testpic_2s/Manifest.mpd''))"
    by (simp add: env1_create Start_def NewCmafIngesterMgr_def)
  have w: "(1::u64) + of_nat (2 ^ 64 - 1) = 0"
    by (simp add: of_nat_diff)
  have b: "fst (creates env1 \<lparr>nr = 1, ingesters = Map.empty, state = ingesterStateRunning\<rparr>
          (replicate (2 ^ 64 - 1) req0)) =
     \<lparr>nr = 0, ingesters = Map.empty, state = ingesterStateRunning\<rparr>"
    by (simp add: creates_fail_replicate w)
  have c: "NewCmafIngester env0 \<lparr>nr = 0, ingesters = Map.empty, state = ingesterStateRunning\<rparr> req0 =
     (\<lparr>nr = 1, ingesters = [1 \<mapsto> ing0], state = ingesterStateRunning\<rparr>, Inr 1)"
    by (simp add: env0_create)
  from a b c show ?thesis by simp
qed
subsection \<open>The source\<close>

lemma buf_update_same: "buf c = b \<Longrightarrow> c\<lparr>buf := b\<rparr> = c"
  by auto

lemma Read_quiet_prefix:
  "buf c = [] \<Longrightarrow> list_all quiet qs \<Longrightarrow> Read c p (qs @ es) = Read c p es"
  by (induction qs arbitrary: c) (auto simp: quiet_def Let_def buf_update_same)

lemma Read_nonempty:
  "buf c @ written e \<noteq> [] \<Longrightarrow>
   Read c p (e # es) =
     (c\<lparr>buf := drop (min (length p) (length (buf c @ written e))) (buf c @ written e)\<rparr>,
      take (min (length p) (length (buf c @ written e))) (buf c @ written e) @
        drop (min (length p) (length (buf c @ written e))) p,
      Some (min (length p) (length (buf c @ written e)), None))"
  by (auto simp: Let_def min_def)

text \<open>
  C9. A round of \<open>Read\<close> that finds the buffer non-empty (what was there and what was
  written since) returns \<open>n = min (len p) (len buf)\<close> bytes, so at most \<open>len p\<close>, copied
  to the front of \<open>p\<close>, with no error, and keeps the bytes after the first \<open>n\<close> in the
  buffer for the next call. With an empty buffer, rounds in which nothing is written
  and no channel is ready do not return (the call keeps polling), and the call behaves
  as it does from the first round in which something happens. A round that finds the
  buffer empty and the context done or \<open>noMoreCh\<close> ready returns \<open>(0, io.EOF)\<close>.
\<close>

theorem Read_spec:
  "(buf c @ written e \<noteq> [] \<longrightarrow>
      (let b = buf c @ written e; n = min (length p) (length b) in
       n \<le> length p \<and>
       Read c p (e # es) = (c\<lparr>buf := drop n b\<rparr>, take n b @ drop n p, Some (n, None)))) \<and>
   (buf c = [] \<and> list_all quiet qs \<longrightarrow>
      Read c p qs = (c, p, None) \<and> Read c p (qs @ e # es) = Read c p (e # es)) \<and>
   (buf c = [] \<and> written e = [] \<and> (ctxDone e \<or> noMore e) \<longrightarrow>
      Read c p (e # es) = (c, p, Some (0, Some EOF)))"
proof (intro conjI impI)
  assume "buf c @ written e \<noteq> []"
  from Read_nonempty [OF this]
  show "let b = buf c @ written e; n = min (length p) (length b) in
       n \<le> length p \<and>
       Read c p (e # es) = (c\<lparr>buf := drop n b\<rparr>, take n b @ drop n p, Some (n, None))"
    by (simp add: Let_def)
next
  assume a: "buf c = [] \<and> list_all quiet qs"
  then show "Read c p (qs @ e # es) = Read c p (e # es)"
    by (simp add: Read_quiet_prefix)
  from a Read_quiet_prefix [of c qs p "[]"] show "Read c p qs = (c, p, None)"
    by simp
next
  assume "buf c = [] \<and> written e = [] \<and> (ctxDone e \<or> noMore e)"
  then show "Read c p (e # es) = (c, p, Some (0, Some EOF))"
    by (auto simp: Let_def buf_update_same)
qed

text \<open>
  Five bytes are read by a call with room for two and a call with room for four; a
  third call polls through two idle rounds and ends when \<open>noMoreCh\<close> is ready.
\<close>

theorem Read_spec_witness:
  "buf src5 @ written nothing \<noteq> [] \<and>
   Read src5 [0, 0] [nothing] = (src5\<lparr>buf := [3, 4, 5]\<rparr>, [1, 2], Some (2, None)) \<and>
   buf (src5\<lparr>buf := [3, 4, 5]\<rparr>) @ written nothing \<noteq> [] \<and>
   Read (src5\<lparr>buf := [3, 4, 5]\<rparr>) [0, 0, 0, 0] [nothing] =
     (src5\<lparr>buf := []\<rparr>, [3, 4, 5, 0], Some (3, None)) \<and>
   buf (src5\<lparr>buf := []\<rparr>) = [] \<and> list_all quiet [nothing, nothing] \<and>
   Read (src5\<lparr>buf := []\<rparr>) [0, 0] [nothing, nothing] = (src5\<lparr>buf := []\<rparr>, [0, 0], None) \<and>
   written closed = [] \<and> (ctxDone closed \<or> noMore closed) \<and>
   Read (src5\<lparr>buf := []\<rparr>) [0, 0] [nothing, nothing, closed] =
     (src5\<lparr>buf := []\<rparr>, [0, 0], Some (0, Some EOF))"
proof -
  have h1: "buf src5 @ written nothing \<noteq> []"
    by (simp add: src5_def nothing_def)
  have h2: "buf (src5\<lparr>buf := [3, 4, 5]\<rparr>) @ written nothing \<noteq> []"
    by simp
  have h3: "buf (src5\<lparr>buf := []\<rparr>) = [] \<and> list_all quiet [nothing, nothing]"
    by (simp add: quiet_def nothing_def)
  have h4: "buf (src5\<lparr>buf := []\<rparr>) = [] \<and> written closed = [] \<and> (ctxDone closed \<or> noMore closed)"
    by (simp add: closed_def)
  have r1: "Read src5 [0, 0] [nothing] = (src5\<lparr>buf := [3, 4, 5]\<rparr>, [1, 2], Some (2, None))"
    using Read_spec [of src5 nothing "[0, 0]" "[]"] h1
    by (simp add: Let_def src5_def nothing_def)
  have r2: "Read (src5\<lparr>buf := [3, 4, 5]\<rparr>) [0, 0, 0, 0] [nothing] =
      (src5\<lparr>buf := []\<rparr>, [3, 4, 5, 0], Some (3, None))"
    using Read_spec [of "src5\<lparr>buf := [3, 4, 5]\<rparr>" nothing "[0, 0, 0, 0]" "[]"] h2
    by (simp add: Let_def nothing_def)
  have r3: "Read (src5\<lparr>buf := []\<rparr>) [0, 0] [nothing, nothing] = (src5\<lparr>buf := []\<rparr>, [0, 0], None)"
    and r4: "Read (src5\<lparr>buf := []\<rparr>) [0, 0] [nothing, nothing, closed] =
      (src5\<lparr>buf := []\<rparr>, [0, 0], Some (0, Some EOF))"
    using Read_spec [of "src5\<lparr>buf := []\<rparr>" closed "[0, 0]" "[]" "[nothing, nothing]"] h3 h4
    by simp_all
  from h1 h2 h3 h4 r1 r2 r3 r4 show ?thesis by blast
qed

end
